theory Spec2Isabelle
  imports Main "HOL-Library.Word"
begin

unbundle bit_operations_syntax

section \<open>The BSD peer tracker (package peertracker, kqueue backend)\<close>

text \<open>
  The tracker watches process identifiers for exit through a kqueue. Its shared memory
  is a map from PID to a channel (the exit signal); a background loop closes the channel
  of a PID when the kernel reports that process's exit. A watcher holds the channel of
  its PID and a closed bit of its own.

  Shared state is passed explicitly. Channels live in a store indexed by address; the
  kernel is not modelled: the result of every system call is an argument of the function
  that makes the call, and the calls that register a filter are logged.
\<close>

subsection \<open>Data\<close>

text \<open>The error numbers KQUEUE(2) lists for kevent, as the comment in the loop does.\<close>

datatype errno = EACCES | EFAULT | EBADF | EINTR | EINVAL | ENOENT | ENOMEM | ESRCH

text \<open>
  The errors of the package are \<open>errors.New\<close> values told apart by their message:
  \<^item> \<open>InvalidCallerError\<close>: "could not resolve caller information";
  \<^item> \<open>ClosedError\<close>: "tracker has been closed";
  \<^item> \<open>WatchCreationError e\<close>: "could not create watcher: " wrapping the errno \<open>e\<close>;
  \<^item> \<open>NotWatchedError\<close>: "caller is no longer being watched";
  \<^item> \<open>CallerExitedError\<close>: "caller exit detected via kevent notification".
\<close>

datatype error =
    InvalidCallerError
  | ClosedError
  | WatchCreationError errno
  | NotWatchedError
  | CallerExitedError

text \<open>
  A channel \<open>chan struct{}\<close> is an address into the channel store; nothing is ever
  sent on these channels, so the store keeps one bit per channel: whether it has been
  closed. \<open>make\<close> allocates the next address.
\<close>

type_synonym chan = nat

text \<open>
  \<open>CallerInfo\<close> is declared outside the tracker's file; the tracker reads its \<open>PID\<close>
  field only, an \<open>int32\<close>.
\<close>

record CallerInfo =
  PID :: "32 word"

text \<open>
  The fields of \<open>unix.Kevent_t\<close> that the loop reads (\<open>Ident uint64\<close>,
  \<open>Filter int16\<close>, \<open>Fflags uint32\<close>), and the two constants of package \<open>unix\<close> it
  compares them with, at their Darwin and FreeBSD values.
\<close>

record Kevent_t =
  Ident :: "64 word"
  Filter :: "16 word"
  Fflags :: "32 word"

definition EVFILT_PROC :: "16 word" where
  "EVFILT_PROC = - 5"

definition NOTE_EXIT :: "32 word" where
  "NOTE_EXIT = 0x80000000"

text \<open>
  \<open>bsdTracker\<close> with the memory it shares: \<open>ctx_cancelled\<close> is \<open>b.ctx.Err() != nil\<close>,
  \<open>kqfd_closed\<close> whether \<open>unix.Close(b.kqfd)\<close> has run, \<open>watchedPIDs\<close> the map of the
  struct (keys are Go \<open>int\<close>), \<open>chans\<close> the channel store (\<open>True\<close> at a closed channel),
  \<open>kevent_log\<close> every registration submitted to the kernel with its result
  (\<open>None\<close> is success), \<open>warnings\<close> what the tracker's logger was given.
\<close>

record bsdTracker =
  ctx_cancelled :: bool
  kqfd :: int
  kqfd_closed :: bool
  watchedPIDs :: "int \<rightharpoonup> chan"
  chans :: "bool list"
  kevent_log :: "(int \<times> errno option) list"
  warnings :: "string list"

record bsdWatcher =
  closed :: bool
  done_chan :: chan
  pid :: "32 word"

text \<open>What a call does besides returning: sleeping (nanoseconds) and logging.\<close>

datatype effect = Sleep nat | Warn string

text \<open>How the loop's goroutine ends, if it does.\<close>

datatype panic = UnrecoverableKqueueError errno | CloseOfClosedChannel

datatype loop_result = Waiting | Returned | Panicked panic

subsection \<open>The tracker\<close>

definition Millisecond :: nat where
  "Millisecond = 1000000"

definition safetyDelay :: nat where
  "safetyDelay = 250 * Millisecond"

text \<open>\<open>newTracker\<close>; the argument is what \<open>unix.Kqueue()\<close> returned.\<close>

definition newTracker :: "errno + int \<Rightarrow> errno + bsdTracker" where
  "newTracker kq =
     (case kq of
        Inl err \<Rightarrow> Inl err
      | Inr fd \<Rightarrow> Inr \<lparr>ctx_cancelled = False, kqfd = fd, kqfd_closed = False,
                      watchedPIDs = Map.empty, chans = [], kevent_log = [],
                      warnings = []\<rparr>)"

text \<open>\<open>bsdTracker.Close\<close>: cancel the context, then close the descriptor.\<close>

definition bsdTracker_Close :: "bsdTracker \<Rightarrow> bsdTracker" where
  "bsdTracker_Close b = b\<lparr>ctx_cancelled := True, kqfd_closed := True\<rparr>"

definition newBSDWatcher :: "CallerInfo \<Rightarrow> chan \<Rightarrow> bsdWatcher" where
  "newBSDWatcher info d = \<lparr>closed = False, done_chan = d, pid = PID info\<rparr>"

text \<open>
  \<open>addKeventForWatcher\<close>: one \<open>unix.Kevent\<close> call with a change list of one one-shot
  exit filter for \<open>p\<close>; \<open>res\<close> is the error it returned.
\<close>

definition addKeventForWatcher ::
  "errno option \<Rightarrow> int \<Rightarrow> bsdTracker \<Rightarrow> errno option \<times> bsdTracker" where
  "addKeventForWatcher res p b = (res, b\<lparr>kevent_log := kevent_log b @ [(p, res)]\<rparr>)"

text \<open>
  \<open>bsdTracker.NewWatcher\<close>. \<open>res\<close> is the result the kernel gives if the call registers
  a filter. \<open>int(info.PID)\<close> is the sign extension of the \<open>int32\<close>.
\<close>

definition bsdTracker_NewWatcher ::
  "errno option \<Rightarrow> CallerInfo \<Rightarrow> bsdTracker \<Rightarrow> (error + bsdWatcher) \<times> bsdTracker" where
  "bsdTracker_NewWatcher res info b =
     (if PID info = 0 then (Inl InvalidCallerError, b)
      else if ctx_cancelled b then (Inl ClosedError, b)
      else
        let p = sint (PID info) in
        case watchedPIDs b p of
          Some d \<Rightarrow> (Inr (newBSDWatcher info d), b)
        | None \<Rightarrow>
            (case addKeventForWatcher res p b of
               (Some err, b') \<Rightarrow> (Inl (WatchCreationError err), b')
             | (None, b') \<Rightarrow>
                 let d = length (chans b') in
                 (Inr (newBSDWatcher info d),
                  b'\<lparr>chans := chans b' @ [False],
                     watchedPIDs := (watchedPIDs b')(p \<mapsto> d)\<rparr>)))"

text \<open>
  Whether a receive from the channel proceeds at once, which on these channels is whether
  the channel has been closed.
\<close>

definition is_closed :: "chan \<Rightarrow> bsdTracker \<Rightarrow> bool" where
  "is_closed d b \<longleftrightarrow> d < length (chans b) \<and> chans b ! d"

text \<open>
  \<open>close(done)\<close>: closing a channel that is already closed is a run-time panic in Go.
\<close>

definition close_chan :: "chan \<Rightarrow> bsdTracker \<Rightarrow> panic option \<times> bsdTracker" where
  "close_chan d b =
     (if d < length (chans b) \<and> \<not> chans b ! d
      then (None, b\<lparr>chans := (chans b)[d := True]\<rparr>)
      else (Some CloseOfClosedChannel, b))"

text \<open>The test the loop makes on each event: a process filter reporting an exit.\<close>

definition is_exit_kevent :: "Kevent_t \<Rightarrow> bool" where
  "is_exit_kevent kevent \<longleftrightarrow>
     Filter kevent = EVFILT_PROC \<and> 0 < (Fflags kevent AND NOTE_EXIT)"

text \<open>
  The body of the loop over \<open>receive[:num]\<close>, for one event. \<open>util.CheckedCast[int]\<close>
  belongs to another package (\<open>pkg/common/util\<close>); the loop takes it as the parameter
  \<open>cast\<close>, whose \<open>None\<close> is its error.
\<close>

definition handle_kevent ::
  "(64 word \<Rightarrow> int option) \<Rightarrow> Kevent_t \<Rightarrow> bsdTracker \<Rightarrow> panic option \<times> bsdTracker" where
  "handle_kevent cast kevent b =
     (if is_exit_kevent kevent then
        (case cast (Ident kevent) of
           None \<Rightarrow> (None, b\<lparr>warnings := warnings b @ [''Failed to cast PID from kevent'']\<rparr>)
         | Some p \<Rightarrow>
             (case watchedPIDs b p of
                Some d \<Rightarrow>
                  (case close_chan d b of
                     (Some pn, b') \<Rightarrow> (Some pn, b')
                   | (None, b') \<Rightarrow> (None, b'\<lparr>watchedPIDs := (watchedPIDs b')(p := None)\<rparr>))
              | None \<Rightarrow> (None, b)))
      else (None, b))"

fun handle_kevents ::
  "(64 word \<Rightarrow> int option) \<Rightarrow> Kevent_t list \<Rightarrow> bsdTracker \<Rightarrow> panic option \<times> bsdTracker" where
  "handle_kevents cast [] b = (None, b)"
| "handle_kevents cast (kevent # rest) b =
     (case handle_kevent cast kevent b of
        (Some pn, b') \<Rightarrow> (Some pn, b')
      | (None, b') \<Rightarrow> handle_kevents cast rest b')"

text \<open>
  One turn of the loop of \<open>receiveKevents\<close>. \<open>r\<close> is what the blocking \<open>unix.Kevent\<close>
  returned: an error, or the events \<open>receive[:num]\<close>. \<open>Waiting\<close> is going round to
  the next wait.
\<close>

definition receiveKevents_iter ::
  "(64 word \<Rightarrow> int option) \<Rightarrow> errno + Kevent_t list \<Rightarrow> bsdTracker
     \<Rightarrow> loop_result \<times> bsdTracker" where
  "receiveKevents_iter cast r b =
     (case r of
        Inl err \<Rightarrow>
          if ctx_cancelled b then (Returned, b)
          else if err = EINTR then (Waiting, b)
          else (Panicked (UnrecoverableKqueueError err), b)
      | Inr received \<Rightarrow>
          (case handle_kevents cast received b of
             (Some pn, b') \<Rightarrow> (Panicked pn, b')
           | (None, b') \<Rightarrow> (Waiting, b')))"

text \<open>
  \<open>receiveKevents\<close>: the loop, over the results of its successive waits. With no
  result left the goroutine is blocked in the wait.
\<close>

fun receiveKevents ::
  "(64 word \<Rightarrow> int option) \<Rightarrow> (errno + Kevent_t list) list \<Rightarrow> bsdTracker
     \<Rightarrow> loop_result \<times> bsdTracker" where
  "receiveKevents cast [] b = (Waiting, b)"
| "receiveKevents cast (r # rs) b =
     (case receiveKevents_iter cast r b of
        (Waiting, b') \<Rightarrow> receiveKevents cast rs b'
      | (res, b') \<Rightarrow> (res, b'))"

subsection \<open>The watcher\<close>

definition bsdWatcher_Close :: "bsdWatcher \<Rightarrow> bsdWatcher" where
  "bsdWatcher_Close w = w\<lparr>closed := True\<rparr>"

text \<open>
  \<open>bsdWatcher.IsAlive\<close>. The closed bit is read first. While the call sleeps the other
  goroutines run: \<open>during\<close> is what they do to the shared state in that time, so the
  \<open>select\<close> reads the channel in \<open>during b\<close>. The result is the error (\<open>None\<close> is nil)
  and what the call did, in order.
\<close>

definition bsdWatcher_IsAlive ::
  "(bsdTracker \<Rightarrow> bsdTracker) \<Rightarrow> bsdWatcher \<Rightarrow> bsdTracker \<Rightarrow> error option \<times> effect list" where
  "bsdWatcher_IsAlive during w b =
     (if closed w then
        (Some NotWatchedError, [Warn ''Caller is no longer being watched''])
      else
        let b' = during b in
        if is_closed (done_chan w) b' then
          (Some CallerExitedError,
           [Sleep safetyDelay, Warn ''Caller exit detected via kevent notification''])
        else (None, [Sleep safetyDelay]))"

definition bsdWatcher_PID :: "bsdWatcher \<Rightarrow> 32 word" where
  "bsdWatcher_PID w = pid w"

subsection \<open>Runs\<close>

text \<open>
  What can happen to the tracker's shared state, one step at a time: a call of
  \<open>NewWatcher\<close>, a call of the tracker's \<open>Close\<close>, one turn of the loop with the result
  of its wait, and the two methods of a watcher, which hold no reference to the tracker
  (a watcher has its closed bit and the receiving end of its channel) and leave the
  shared state as it is. Every step runs under the tracker's mutex or touches no shared
  state, so a run is a sequence of steps. The result of a loop turn is dropped here: a
  run may go on after the loop has ended, which only adds runs.
\<close>

datatype call =
    CallNewWatcher "errno option" CallerInfo
  | CallTrackerClose
  | LoopTurn "errno + Kevent_t list"
  | CallWatcherClose bsdWatcher
  | CallIsAlive bsdWatcher

fun tracker_step :: "(64 word \<Rightarrow> int option) \<Rightarrow> call \<Rightarrow> bsdTracker \<Rightarrow> bsdTracker" where
  "tracker_step cast (CallNewWatcher res info) b = snd (bsdTracker_NewWatcher res info b)"
| "tracker_step cast CallTrackerClose b = bsdTracker_Close b"
| "tracker_step cast (LoopTurn r) b = snd (receiveKevents_iter cast r b)"
| "tracker_step cast (CallWatcherClose w) b = b"
| "tracker_step cast (CallIsAlive w) b = b"

fun run :: "(64 word \<Rightarrow> int option) \<Rightarrow> call list \<Rightarrow> bsdTracker \<Rightarrow> bsdTracker" where
  "run cast [] b = b"
| "run cast (c # cs) b = run cast cs (tracker_step cast c b)"

text \<open>
  The state the tracker's code keeps: a channel in the map is allocated and not closed,
  and no channel is in the map under two PIDs.
\<close>

definition wf_tracker :: "bsdTracker \<Rightarrow> bool" where
  "wf_tracker b \<longleftrightarrow>
     (\<forall>p d. watchedPIDs b p = Some d \<longrightarrow> d < length (chans b) \<and> \<not> chans b ! d) \<and>
     (\<forall>p q d. watchedPIDs b p = Some d \<and> watchedPIDs b q = Some d \<longrightarrow> p = q)"

text \<open>The PIDs whose exit a batch of events reports to the loop, in order.\<close>

definition exit_pids :: "(64 word \<Rightarrow> int option) \<Rightarrow> Kevent_t list \<Rightarrow> int list" where
  "exit_pids cast kevents =
     List.map_filter (\<lambda>k. if is_exit_kevent k then cast (Ident k) else None) kevents"

text \<open>
  An instance of the conversion the loop is given, for running it on concrete events:
  a \<open>uint64\<close> converts to Go's 64-bit \<open>int\<close> when its value fits, and fails otherwise.
\<close>

definition CheckedCast_int :: "64 word \<Rightarrow> int option" where
  "CheckedCast_int v = (if uint v < 2 ^ 63 then Some (uint v) else None)"

section \<open>Properties\<close>

subsection \<open>The liveness query\<close>

text \<open>
  Claim C1. A watcher that has not been closed answers \<open>IsAlive\<close> by first sleeping
  for the safety delay (250 ms) and then looking at its exit signal in the state the
  other goroutines have made by then: \<open>CallerExitedError\<close> if the signal has been
  closed, nil if it has not.
\<close>

theorem IsAlive_open_sleeps_then_checks:
  assumes "\<not> closed w"
  shows "bsdWatcher_IsAlive during w b =
           (if is_closed (done_chan w) (during b)
            then (Some CallerExitedError,
                  [Sleep safetyDelay, Warn ''Caller exit detected via kevent notification''])
            else (None, [Sleep safetyDelay]))
         \<and> safetyDelay = 250000000"
  using assms by (simp add: bsdWatcher_IsAlive_def Let_def safetyDelay_def Millisecond_def)

theorem IsAlive_open_sleeps_then_checks_witness:
  "\<not> closed \<lparr>closed = False, done_chan = 0, pid = 7\<rparr> \<and>
   bsdWatcher_IsAlive
     (\<lambda>b. snd (receiveKevents_iter CheckedCast_int
                  (Inr [\<lparr>Ident = 7, Filter = - 5, Fflags = 0x80000000\<rparr>]) b))
     \<lparr>closed = False, done_chan = 0, pid = 7\<rparr>
     \<lparr>ctx_cancelled = False, kqfd = 3, kqfd_closed = False, watchedPIDs = [7 \<mapsto> 0],
      chans = [False], kevent_log = [(7, None)], warnings = []\<rparr>
   = (Some CallerExitedError,
      [Sleep 250000000, Warn ''Caller exit detected via kevent notification'']) \<and>
   bsdWatcher_IsAlive (\<lambda>b. b)
     \<lparr>closed = False, done_chan = 0, pid = 7\<rparr>
     \<lparr>ctx_cancelled = False, kqfd = 3, kqfd_closed = False, watchedPIDs = [7 \<mapsto> 0],
      chans = [False], kevent_log = [(7, None)], warnings = []\<rparr>
   = (None, [Sleep 250000000])"
  using IsAlive_open_sleeps_then_checks
          [of "\<lparr>closed = False, done_chan = 0, pid = 7\<rparr>"
              "\<lambda>b. snd (receiveKevents_iter CheckedCast_int
                  (Inr [\<lparr>Ident = 7, Filter = - 5, Fflags = 0x80000000\<rparr>]) b)"
              "\<lparr>ctx_cancelled = False, kqfd = 3, kqfd_closed = False,
                watchedPIDs = [7 \<mapsto> 0], chans = [False], kevent_log = [(7, None)],
                warnings = []\<rparr>"]
        IsAlive_open_sleeps_then_checks
          [of "\<lparr>closed = False, done_chan = 0, pid = 7\<rparr>" "\<lambda>b. b"
              "\<lparr>ctx_cancelled = False, kqfd = 3, kqfd_closed = False,
                watchedPIDs = [7 \<mapsto> 0], chans = [False], kevent_log = [(7, None)],
                warnings = []\<rparr>"]
  by (simp add: is_closed_def receiveKevents_iter_def handle_kevent_def is_exit_kevent_def
        EVFILT_PROC_def NOTE_EXIT_def CheckedCast_int_def close_chan_def)

text \<open>
  Claim C2. Once \<open>Close\<close> has been called on a watcher, however many more times it is
  called afterwards (it is the only method that writes the watcher), every \<open>IsAlive\<close>
  returns \<open>NotWatchedError\<close>, whatever the shared state is and whatever happens to it
  meanwhile.
\<close>

theorem IsAlive_after_Close:
  "bsdWatcher_IsAlive during ((bsdWatcher_Close ^^ Suc n) w) b =
     (Some NotWatchedError, [Warn ''Caller is no longer being watched''])"
proof -
  have "closed ((bsdWatcher_Close ^^ Suc n) w)"
    by (simp add: bsdWatcher_Close_def)
  then show ?thesis
    by (simp add: bsdWatcher_IsAlive_def)
qed

theorem IsAlive_after_Close_witness:
  "bsdWatcher_IsAlive (\<lambda>b. b) ((bsdWatcher_Close ^^ Suc 1) \<lparr>closed = False, done_chan = 0, pid = 7\<rparr>)
     \<lparr>ctx_cancelled = False, kqfd = 3, kqfd_closed = False, watchedPIDs = Map.empty,
      chans = [True], kevent_log = [(7, None)], warnings = []\<rparr>
   = (Some NotWatchedError, [Warn ''Caller is no longer being watched''])"
  by (rule IsAlive_after_Close)

text \<open>
  Claim C10. A closed watcher answers \<open>IsAlive\<close> with \<open>NotWatchedError\<close> without
  sleeping: the call sleeps exactly when the watcher is not closed.
\<close>

theorem IsAlive_closed_does_not_sleep:
  "(closed w \<longrightarrow>
      bsdWatcher_IsAlive during w b =
        (Some NotWatchedError, [Warn ''Caller is no longer being watched''])) \<and>
   ((\<exists>t. Sleep t \<in> set (snd (bsdWatcher_IsAlive during w b))) \<longleftrightarrow> \<not> closed w)"
  by (auto simp add: bsdWatcher_IsAlive_def Let_def)

theorem IsAlive_closed_does_not_sleep_witness:
  "closed \<lparr>closed = True, done_chan = 0, pid = 7\<rparr> \<and>
   bsdWatcher_IsAlive (\<lambda>b. b) \<lparr>closed = True, done_chan = 0, pid = 7\<rparr>
     \<lparr>ctx_cancelled = False, kqfd = 3, kqfd_closed = False, watchedPIDs = [7 \<mapsto> 0],
      chans = [False], kevent_log = [(7, None)], warnings = []\<rparr>
   = (Some NotWatchedError, [Warn ''Caller is no longer being watched''])"
  using IsAlive_closed_does_not_sleep
          [of "\<lparr>closed = True, done_chan = 0, pid = 7\<rparr>" "\<lambda>b. b"
              "\<lparr>ctx_cancelled = False, kqfd = 3, kqfd_closed = False,
                watchedPIDs = [7 \<mapsto> 0], chans = [False], kevent_log = [(7, None)],
                warnings = []\<rparr>"]
  by simp

subsection \<open>Errors of the wait\<close>

text \<open>
  Claim C3. When the loop's wait returns an error: with the context cancelled the loop
  returns, the state untouched; otherwise on \<open>EINTR\<close> it goes on to the next wait, the
  state untouched; otherwise it panics.
\<close>

theorem receiveKevents_wait_error:
  "receiveKevents cast (Inl err # rs) b =
     (if ctx_cancelled b then (Returned, b)
      else if err = EINTR then receiveKevents cast rs b
      else (Panicked (UnrecoverableKqueueError err), b))"
  by (simp add: receiveKevents_iter_def)

theorem receiveKevents_wait_error_witness:
  "receiveKevents CheckedCast_int
     [Inl EINTR, Inr [\<lparr>Ident = 7, Filter = - 5, Fflags = 0x80000000\<rparr>], Inl EBADF]
     \<lparr>ctx_cancelled = False, kqfd = 3, kqfd_closed = False, watchedPIDs = [7 \<mapsto> 0],
      chans = [False], kevent_log = [(7, None)], warnings = []\<rparr>
   = (Panicked (UnrecoverableKqueueError EBADF),
      \<lparr>ctx_cancelled = False, kqfd = 3, kqfd_closed = False, watchedPIDs = Map.empty,
       chans = [True], kevent_log = [(7, None)], warnings = []\<rparr>) \<and>
   receiveKevents CheckedCast_int [Inl EBADF]
     \<lparr>ctx_cancelled = True, kqfd = 3, kqfd_closed = True, watchedPIDs = [7 \<mapsto> 0],
      chans = [False], kevent_log = [(7, None)], warnings = []\<rparr>
   = (Returned,
      \<lparr>ctx_cancelled = True, kqfd = 3, kqfd_closed = True, watchedPIDs = [7 \<mapsto> 0],
       chans = [False], kevent_log = [(7, None)], warnings = []\<rparr>)"
  using receiveKevents_wait_error [of CheckedCast_int EINTR
          "[Inr [\<lparr>Ident = 7, Filter = - 5, Fflags = 0x80000000\<rparr>], Inl EBADF]"
          "\<lparr>ctx_cancelled = False, kqfd = 3, kqfd_closed = False,
            watchedPIDs = [7 \<mapsto> 0], chans = [False], kevent_log = [(7, None)],
            warnings = []\<rparr>"]
  by (simp add: receiveKevents_iter_def handle_kevent_def is_exit_kevent_def
        EVFILT_PROC_def NOTE_EXIT_def CheckedCast_int_def close_chan_def)

subsection \<open>Creating watchers\<close>

text \<open>
  Claim C6, as the code has it. \<open>NewWatcher\<close> turns away the PID 0 with
  \<open>InvalidCallerError\<close>: no watcher, no registration with the kernel, the state as it
  was.
\<close>

theorem NewWatcher_zero_PID:
  assumes "PID info = 0"
  shows "bsdTracker_NewWatcher res info b = (Inl InvalidCallerError, b)"
  using assms by (simp add: bsdTracker_NewWatcher_def)

theorem NewWatcher_zero_PID_witness:
  "PID \<lparr>PID = 0\<rparr> = 0 \<and>
   bsdTracker_NewWatcher None \<lparr>PID = 0\<rparr>
     \<lparr>ctx_cancelled = False, kqfd = 3, kqfd_closed = False, watchedPIDs = Map.empty,
      chans = [], kevent_log = [], warnings = []\<rparr>
   = (Inl InvalidCallerError,
      \<lparr>ctx_cancelled = False, kqfd = 3, kqfd_closed = False, watchedPIDs = Map.empty,
       chans = [], kevent_log = [], warnings = []\<rparr>)"
  using NewWatcher_zero_PID [of "\<lparr>PID = 0\<rparr>" None
          "\<lparr>ctx_cancelled = False, kqfd = 3, kqfd_closed = False, watchedPIDs = Map.empty,
            chans = [], kevent_log = [], warnings = []\<rparr>"]
  by simp

text \<open>
  A negative PID passes that test. On an open tracker it goes to the kernel: if the
  kernel refuses it the error is \<open>WatchCreationError\<close>, and if the kernel accepts it a
  watcher is made and the map has a new entry.
\<close>

theorem NewWatcher_negative_PID_counterexample:
  "sint (PID \<lparr>PID = - 1\<rparr>) \<le> 0 \<and>
   bsdTracker_NewWatcher (Some ESRCH) \<lparr>PID = - 1\<rparr>
     \<lparr>ctx_cancelled = False, kqfd = 3, kqfd_closed = False, watchedPIDs = Map.empty,
      chans = [], kevent_log = [], warnings = []\<rparr>
   = (Inl (WatchCreationError ESRCH),
      \<lparr>ctx_cancelled = False, kqfd = 3, kqfd_closed = False, watchedPIDs = Map.empty,
       chans = [], kevent_log = [(- 1, Some ESRCH)], warnings = []\<rparr>) \<and>
   bsdTracker_NewWatcher None \<lparr>PID = - 1\<rparr>
     \<lparr>ctx_cancelled = False, kqfd = 3, kqfd_closed = False, watchedPIDs = Map.empty,
      chans = [], kevent_log = [], warnings = []\<rparr>
   = (Inr \<lparr>closed = False, done_chan = 0, pid = - 1\<rparr>,
      \<lparr>ctx_cancelled = False, kqfd = 3, kqfd_closed = False, watchedPIDs = [- 1 \<mapsto> 0],
       chans = [False], kevent_log = [(- 1, None)], warnings = []\<rparr>)"
  by (simp add: bsdTracker_NewWatcher_def addKeventForWatcher_def newBSDWatcher_def Let_def)

text \<open>No step of a run brings a cancelled context back.\<close>

lemma NewWatcher_ctx_cancelled:
  "ctx_cancelled (snd (bsdTracker_NewWatcher res info b)) = ctx_cancelled b"
  by (simp add: bsdTracker_NewWatcher_def addKeventForWatcher_def Let_def
        split: option.split)

lemma handle_kevent_ctx_cancelled:
  "ctx_cancelled (snd (handle_kevent cast kevent b)) = ctx_cancelled b"
  by (simp add: handle_kevent_def close_chan_def split: option.split)

lemma handle_kevents_ctx_cancelled:
  "ctx_cancelled (snd (handle_kevents cast kevents b)) = ctx_cancelled b"
proof (induction kevents arbitrary: b)
  case Nil
  show ?case by simp
next
  case (Cons kevent rest)
  obtain pn b' where h: "handle_kevent cast kevent b = (pn, b')"
    by (cases "handle_kevent cast kevent b")
  have c: "ctx_cancelled b' = ctx_cancelled b"
    using handle_kevent_ctx_cancelled [of cast kevent b] h by simp
  show ?case
  proof (cases pn)
    case None
    with h c Cons.IH [of b'] show ?thesis by simp
  next
    case (Some a)
    with h c show ?thesis by simp
  qed
qed

lemma receiveKevents_iter_ctx_cancelled:
  "ctx_cancelled (snd (receiveKevents_iter cast r b)) = ctx_cancelled b"
proof (cases r)
  case (Inl err)
  then show ?thesis by (simp add: receiveKevents_iter_def)
next
  case (Inr received)
  obtain pn b' where h: "handle_kevents cast received b = (pn, b')"
    by (cases "handle_kevents cast received b")
  have "ctx_cancelled b' = ctx_cancelled b"
    using handle_kevents_ctx_cancelled [of cast received b] h by simp
  with Inr h show ?thesis
    by (cases pn) (simp_all add: receiveKevents_iter_def)
qed

lemma tracker_step_ctx_cancelled:
  "ctx_cancelled b \<Longrightarrow> ctx_cancelled (tracker_step cast c b)"
  by (cases c)
     (simp_all add: NewWatcher_ctx_cancelled receiveKevents_iter_ctx_cancelled
        bsdTracker_Close_def)

lemma run_ctx_cancelled:
  "ctx_cancelled b \<Longrightarrow> ctx_cancelled (run cast cs b)"
  by (induction cs arbitrary: b) (simp_all add: tracker_step_ctx_cancelled)

text \<open>
  Claim C8. After the tracker's \<open>Close\<close>, and whatever runs after it, \<open>NewWatcher\<close>
  with a PID other than 0 fails with \<open>ClosedError\<close> and leaves the state, the map and
  the registrations with the kernel among it, as it was.
\<close>

theorem NewWatcher_after_tracker_Close:
  assumes "PID info \<noteq> 0"
  shows "bsdTracker_NewWatcher res info (run cast cs (bsdTracker_Close b)) =
           (Inl ClosedError, run cast cs (bsdTracker_Close b))"
proof -
  have "ctx_cancelled (bsdTracker_Close b)"
    by (simp add: bsdTracker_Close_def)
  then have "ctx_cancelled (run cast cs (bsdTracker_Close b))"
    by (rule run_ctx_cancelled)
  with assms show ?thesis
    by (simp add: bsdTracker_NewWatcher_def)
qed

theorem NewWatcher_after_tracker_Close_witness:
  "PID \<lparr>PID = 7\<rparr> \<noteq> 0 \<and>
   bsdTracker_NewWatcher None \<lparr>PID = 7\<rparr>
     (run CheckedCast_int [LoopTurn (Inl EBADF), CallNewWatcher None \<lparr>PID = 9\<rparr>]
        (bsdTracker_Close
           \<lparr>ctx_cancelled = False, kqfd = 3, kqfd_closed = False, watchedPIDs = Map.empty,
            chans = [], kevent_log = [], warnings = []\<rparr>))
   = (Inl ClosedError,
      \<lparr>ctx_cancelled = True, kqfd = 3, kqfd_closed = True, watchedPIDs = Map.empty,
       chans = [], kevent_log = [], warnings = []\<rparr>)"
  using NewWatcher_after_tracker_Close [of "\<lparr>PID = 7\<rparr>" None CheckedCast_int
          "[LoopTurn (Inl EBADF), CallNewWatcher None \<lparr>PID = 9\<rparr>]"
          "\<lparr>ctx_cancelled = False, kqfd = 3, kqfd_closed = False, watchedPIDs = Map.empty,
            chans = [], kevent_log = [], warnings = []\<rparr>"]
  by (simp add: bsdTracker_Close_def bsdTracker_NewWatcher_def receiveKevents_iter_def)

text \<open>
  Claim C9. When \<open>NewWatcher\<close> finds no entry for the PID and the kernel refuses the
  registration, the call returns \<open>WatchCreationError\<close> and no watcher, and changes
  nothing but the log of registrations: the map and the channels are as they were. A
  second call for the same PID therefore submits a registration again.
\<close>

theorem NewWatcher_registration_failure:
  assumes "PID info \<noteq> 0" and "\<not> ctx_cancelled b"
    and "watchedPIDs b (sint (PID info)) = None"
  shows "bsdTracker_NewWatcher (Some err) info b =
           (Inl (WatchCreationError err),
            b\<lparr>kevent_log := kevent_log b @ [(sint (PID info), Some err)]\<rparr>) \<and>
         kevent_log (snd (bsdTracker_NewWatcher res info
                            (snd (bsdTracker_NewWatcher (Some err) info b)))) =
           kevent_log b @ [(sint (PID info), Some err), (sint (PID info), res)]"
  using assms
  by (simp add: bsdTracker_NewWatcher_def addKeventForWatcher_def Let_def
        split: option.split)

theorem NewWatcher_registration_failure_witness:
  "PID \<lparr>PID = 7\<rparr> \<noteq> 0 \<and>
   bsdTracker_NewWatcher (Some ESRCH) \<lparr>PID = 7\<rparr>
     \<lparr>ctx_cancelled = False, kqfd = 3, kqfd_closed = False, watchedPIDs = Map.empty,
      chans = [], kevent_log = [], warnings = []\<rparr>
   = (Inl (WatchCreationError ESRCH),
      \<lparr>ctx_cancelled = False, kqfd = 3, kqfd_closed = False, watchedPIDs = Map.empty,
       chans = [], kevent_log = [(7, Some ESRCH)], warnings = []\<rparr>) \<and>
   kevent_log (snd (bsdTracker_NewWatcher None \<lparr>PID = 7\<rparr>
                      (snd (bsdTracker_NewWatcher (Some ESRCH) \<lparr>PID = 7\<rparr>
     \<lparr>ctx_cancelled = False, kqfd = 3, kqfd_closed = False, watchedPIDs = Map.empty,
      chans = [], kevent_log = [], warnings = []\<rparr>)))) = [(7, Some ESRCH), (7, None)]"
  using NewWatcher_registration_failure [of "\<lparr>PID = 7\<rparr>"
          "\<lparr>ctx_cancelled = False, kqfd = 3, kqfd_closed = False, watchedPIDs = Map.empty,
            chans = [], kevent_log = [], warnings = []\<rparr>" ESRCH None]
  by (simp add: bsdTracker_NewWatcher_def addKeventForWatcher_def Let_def)

subsection \<open>The map of watched PIDs\<close>

lemma exit_pids_Nil: "exit_pids cast [] = []"
  by (simp add: exit_pids_def map_filter_simps)

lemma exit_pids_Cons_other:
  "\<not> is_exit_kevent k \<Longrightarrow> exit_pids cast (k # ks) = exit_pids cast ks"
  by (simp add: exit_pids_def map_filter_simps)

lemma exit_pids_Cons_None:
  "cast (Ident k) = None \<Longrightarrow> exit_pids cast (k # ks) = exit_pids cast ks"
  by (simp add: exit_pids_def map_filter_simps)

lemma exit_pids_Cons_Some:
  "is_exit_kevent k \<Longrightarrow> cast (Ident k) = Some p \<Longrightarrow>
     exit_pids cast (k # ks) = p # exit_pids cast ks"
  by (simp add: exit_pids_def map_filter_simps)

lemma set_exit_pids_Cons:
  "set (exit_pids cast (k # ks)) = set (exit_pids cast [k]) \<union> set (exit_pids cast ks)"
proof (cases "is_exit_kevent k")
  case False
  then show ?thesis
    by (simp add: exit_pids_Cons_other exit_pids_Nil)
next
  case True
  then show ?thesis
    by (cases "cast (Ident k)")
       (simp_all add: exit_pids_Cons_None exit_pids_Cons_Some exit_pids_Nil)
qed

lemma set_exit_pids:
  "p \<in> set (exit_pids cast ks) \<longleftrightarrow>
     (\<exists>k\<in>set ks. is_exit_kevent k \<and> cast (Ident k) = Some p)"
proof (induction ks)
  case Nil
  show ?case by (simp add: exit_pids_Nil)
next
  case (Cons k ks)
  show ?case
  proof (cases "is_exit_kevent k")
    case False
    with Cons show ?thesis
      by (auto simp add: exit_pids_Cons_other)
  next
    case True
    with Cons show ?thesis
      by (cases "cast (Ident k)")
         (auto simp add: exit_pids_Cons_None exit_pids_Cons_Some)
  qed
qed

lemma wf_trackerI:
  assumes "\<And>p d. watchedPIDs b p = Some d \<Longrightarrow> d < length (chans b) \<and> \<not> chans b ! d"
    and "\<And>p q d. watchedPIDs b p = Some d \<Longrightarrow> watchedPIDs b q = Some d \<Longrightarrow> p = q"
  shows "wf_tracker b"
  using assms unfolding wf_tracker_def by blast

lemma wf_tracker_open:
  "wf_tracker b \<Longrightarrow> watchedPIDs b p = Some d \<Longrightarrow> d < length (chans b) \<and> \<not> chans b ! d"
  unfolding wf_tracker_def by blast

lemma wf_tracker_inj:
  "wf_tracker b \<Longrightarrow> watchedPIDs b p = Some d \<Longrightarrow> watchedPIDs b q = Some d \<Longrightarrow> p = q"
  unfolding wf_tracker_def by blast

lemma handle_kevent_matching:
  assumes wf: "wf_tracker b" and ex: "is_exit_kevent k"
    and c: "cast (Ident k) = Some p" and e: "watchedPIDs b p = Some d"
  shows "handle_kevent cast k b =
           (None, b\<lparr>chans := (chans b)[d := True],
                    watchedPIDs := (watchedPIDs b)(p := None)\<rparr>)"
  using wf_tracker_open [OF wf e] ex c e
  by (simp add: handle_kevent_def close_chan_def)

lemma wf_tracker_reap:
  assumes wf: "wf_tracker b" and e: "watchedPIDs b p = Some d"
  shows "wf_tracker (b\<lparr>chans := (chans b)[d := True],
                       watchedPIDs := (watchedPIDs b)(p := None)\<rparr>)"
proof (rule wf_trackerI)
  fix q d'
  assume "watchedPIDs (b\<lparr>chans := (chans b)[d := True],
             watchedPIDs := (watchedPIDs b)(p := None)\<rparr>) q = Some d'"
  then have q: "q \<noteq> p" "watchedPIDs b q = Some d'"
    by (simp_all split: if_splits)
  have "d' \<noteq> d"
    using wf_tracker_inj [OF wf q(2)] e q(1) by blast
  with wf_tracker_open [OF wf q(2)]
  show "d' < length (chans (b\<lparr>chans := (chans b)[d := True],
             watchedPIDs := (watchedPIDs b)(p := None)\<rparr>)) \<and>
        \<not> chans (b\<lparr>chans := (chans b)[d := True],
             watchedPIDs := (watchedPIDs b)(p := None)\<rparr>) ! d'"
    by simp
next
  fix q r d'
  assume "watchedPIDs (b\<lparr>chans := (chans b)[d := True],
             watchedPIDs := (watchedPIDs b)(p := None)\<rparr>) q = Some d'"
    and "watchedPIDs (b\<lparr>chans := (chans b)[d := True],
             watchedPIDs := (watchedPIDs b)(p := None)\<rparr>) r = Some d'"
  then have "watchedPIDs b q = Some d'" "watchedPIDs b r = Some d'"
    by (simp_all split: if_splits)
  then show "q = r"
    by (rule wf_tracker_inj [OF wf])
qed

text \<open>What one event does to a well-formed state.\<close>

lemma handle_kevent_wf:
  assumes wf: "wf_tracker b"
  shows "\<exists>b'. handle_kevent cast k b = (None, b') \<and> wf_tracker b' \<and>
           watchedPIDs b' =
             (\<lambda>p. if p \<in> set (exit_pids cast [k]) then None else watchedPIDs b p) \<and>
           length (chans b') = length (chans b) \<and>
           (\<forall>d. is_closed d b' \<longleftrightarrow>
                  is_closed d b \<or> (\<exists>p\<in>set (exit_pids cast [k]). watchedPIDs b p = Some d)) \<and>
           kevent_log b' = kevent_log b"
proof (cases "is_exit_kevent k")
  case False
  then show ?thesis
    using wf by (simp add: handle_kevent_def exit_pids_Cons_other exit_pids_Nil)
next
  case ex: True
  show ?thesis
  proof (cases "cast (Ident k)")
    case None
    have "wf_tracker (b\<lparr>warnings := warnings b @ [''Failed to cast PID from kevent'']\<rparr>)"
      using wf by (simp add: wf_tracker_def)
    with ex None show ?thesis
      by (simp add: handle_kevent_def exit_pids_Cons_None exit_pids_Nil is_closed_def)
  next
    case (Some p)
    show ?thesis
    proof (cases "watchedPIDs b p")
      case None
      have "(\<lambda>q. if q = p then None else watchedPIDs b q) = watchedPIDs b"
        using None by auto
      with ex Some None wf show ?thesis
        by (simp add: handle_kevent_def exit_pids_Cons_Some exit_pids_Nil)
    next
      case e: (Some d)
      have o: "d < length (chans b)"
        using wf_tracker_open [OF wf e] by simp
      have "\<forall>d'. is_closed d' (b\<lparr>chans := (chans b)[d := True],
                    watchedPIDs := (watchedPIDs b)(p := None)\<rparr>) \<longleftrightarrow>
                  is_closed d' b \<or> d' = d"
        using o by (auto simp add: is_closed_def nth_list_update)
      moreover have "(watchedPIDs b)(p := None) =
                       (\<lambda>q. if q = p then None else watchedPIDs b q)"
        by auto
      ultimately show ?thesis
        using handle_kevent_matching [where cast = cast, OF wf ex Some e]
          wf_tracker_reap [OF wf e] ex Some e
        by (auto simp add: exit_pids_Cons_Some exit_pids_Nil)
    qed
  qed
qed

text \<open>What a batch of events does to a well-formed state.\<close>

lemma handle_kevents_wf:
  assumes "wf_tracker b"
  shows "\<exists>b'. handle_kevents cast ks b = (None, b') \<and> wf_tracker b' \<and>
           watchedPIDs b' =
             (\<lambda>p. if p \<in> set (exit_pids cast ks) then None else watchedPIDs b p) \<and>
           length (chans b') = length (chans b) \<and>
           (\<forall>d. is_closed d b' \<longleftrightarrow>
                  is_closed d b \<or> (\<exists>p\<in>set (exit_pids cast ks). watchedPIDs b p = Some d)) \<and>
           kevent_log b' = kevent_log b"
  using assms
proof (induction ks arbitrary: b)
  case Nil
  then show ?case by (simp add: exit_pids_Nil)
next
  case (Cons k ks)
  from handle_kevent_wf [OF Cons.prems, of cast k]
  obtain b1 where h1: "handle_kevent cast k b = (None, b1)" and wf1: "wf_tracker b1"
    and m1: "watchedPIDs b1 =
               (\<lambda>p. if p \<in> set (exit_pids cast [k]) then None else watchedPIDs b p)"
    and l1: "length (chans b1) = length (chans b)"
    and c1: "\<forall>d. is_closed d b1 \<longleftrightarrow>
               is_closed d b \<or> (\<exists>p\<in>set (exit_pids cast [k]). watchedPIDs b p = Some d)"
    and k1: "kevent_log b1 = kevent_log b"
    by blast
  from Cons.IH [OF wf1]
  obtain b2 where h2: "handle_kevents cast ks b1 = (None, b2)" and wf2: "wf_tracker b2"
    and m2: "watchedPIDs b2 =
               (\<lambda>p. if p \<in> set (exit_pids cast ks) then None else watchedPIDs b1 p)"
    and l2: "length (chans b2) = length (chans b1)"
    and c2: "\<forall>d. is_closed d b2 \<longleftrightarrow>
               is_closed d b1 \<or> (\<exists>p\<in>set (exit_pids cast ks). watchedPIDs b1 p = Some d)"
    and k2: "kevent_log b2 = kevent_log b1"
    by blast
  have s: "set (exit_pids cast (k # ks)) = set (exit_pids cast [k]) \<union> set (exit_pids cast ks)"
    by (rule set_exit_pids_Cons)
  have m: "watchedPIDs b2 =
             (\<lambda>p. if p \<in> set (exit_pids cast (k # ks)) then None else watchedPIDs b p)"
    by (rule ext) (simp add: m2 m1 s)
  have c: "\<forall>d. is_closed d b2 \<longleftrightarrow>
             is_closed d b \<or> (\<exists>p\<in>set (exit_pids cast (k # ks)). watchedPIDs b p = Some d)"
  proof
    fix d
    have "is_closed d b2 \<longleftrightarrow>
            is_closed d b1 \<or> (\<exists>p\<in>set (exit_pids cast ks). watchedPIDs b1 p = Some d)"
      using c2 by blast
    also have "is_closed d b1 \<longleftrightarrow>
            is_closed d b \<or> (\<exists>p\<in>set (exit_pids cast [k]). watchedPIDs b p = Some d)"
      using c1 by blast
    finally show "is_closed d b2 \<longleftrightarrow>
            is_closed d b \<or> (\<exists>p\<in>set (exit_pids cast (k # ks)). watchedPIDs b p = Some d)"
      by (auto simp add: m1 s split: if_splits)
  qed
  from h1 h2 wf2 m l1 l2 c k1 k2 show ?case
    by simp
qed


subsection \<open>What a step does\<close>

lemma wf_newTracker: "newTracker kq = Inr b \<Longrightarrow> wf_tracker b"
  by (cases kq) (auto simp add: newTracker_def wf_tracker_def)

lemma NewWatcher_existing:
  "PID info \<noteq> 0 \<Longrightarrow> \<not> ctx_cancelled b \<Longrightarrow> watchedPIDs b (sint (PID info)) = Some d \<Longrightarrow>
     bsdTracker_NewWatcher res info b = (Inr (newBSDWatcher info d), b)"
  by (simp add: bsdTracker_NewWatcher_def)

lemma NewWatcher_fresh:
  "PID info \<noteq> 0 \<Longrightarrow> \<not> ctx_cancelled b \<Longrightarrow> watchedPIDs b (sint (PID info)) = None \<Longrightarrow>
     bsdTracker_NewWatcher None info b =
       (Inr (newBSDWatcher info (length (chans b))),
        b\<lparr>kevent_log := kevent_log b @ [(sint (PID info), None)],
          chans := chans b @ [False],
          watchedPIDs := (watchedPIDs b)(sint (PID info) \<mapsto> length (chans b))\<rparr>)"
  by (simp add: bsdTracker_NewWatcher_def addKeventForWatcher_def Let_def)

text \<open>The three things \<open>NewWatcher\<close> can do to the state.\<close>

lemma NewWatcher_state:
  "snd (bsdTracker_NewWatcher res info b) = b \<or>
   watchedPIDs b (sint (PID info)) = None \<and>
     ((\<exists>err. snd (bsdTracker_NewWatcher res info b) =
              b\<lparr>kevent_log := kevent_log b @ [(sint (PID info), Some err)]\<rparr>) \<or>
      snd (bsdTracker_NewWatcher res info b) =
        b\<lparr>kevent_log := kevent_log b @ [(sint (PID info), None)],
          chans := chans b @ [False],
          watchedPIDs := (watchedPIDs b)(sint (PID info) \<mapsto> length (chans b))\<rparr>)"
  by (cases res; cases "watchedPIDs b (sint (PID info))")
     (auto simp add: bsdTracker_NewWatcher_def addKeventForWatcher_def Let_def)

lemma wf_tracker_register:
  assumes wf: "wf_tracker b" and e: "watchedPIDs b p = None"
  shows "wf_tracker (b\<lparr>kevent_log := l, chans := chans b @ [False],
                       watchedPIDs := (watchedPIDs b)(p \<mapsto> length (chans b))\<rparr>)"
proof (rule wf_trackerI)
  fix q d
  assume "watchedPIDs (b\<lparr>kevent_log := l, chans := chans b @ [False],
             watchedPIDs := (watchedPIDs b)(p \<mapsto> length (chans b))\<rparr>) q = Some d"
  then have "q = p \<and> d = length (chans b) \<or> watchedPIDs b q = Some d"
    by (simp split: if_splits)
  then show "d < length (chans (b\<lparr>kevent_log := l, chans := chans b @ [False],
               watchedPIDs := (watchedPIDs b)(p \<mapsto> length (chans b))\<rparr>)) \<and>
             \<not> chans (b\<lparr>kevent_log := l, chans := chans b @ [False],
               watchedPIDs := (watchedPIDs b)(p \<mapsto> length (chans b))\<rparr>) ! d"
    using wf_tracker_open [OF wf, of q d] by (auto simp add: nth_append)
next
  fix q r d
  assume "watchedPIDs (b\<lparr>kevent_log := l, chans := chans b @ [False],
             watchedPIDs := (watchedPIDs b)(p \<mapsto> length (chans b))\<rparr>) q = Some d"
    and "watchedPIDs (b\<lparr>kevent_log := l, chans := chans b @ [False],
             watchedPIDs := (watchedPIDs b)(p \<mapsto> length (chans b))\<rparr>) r = Some d"
  then have "q = p \<and> d = length (chans b) \<or> q \<noteq> p \<and> watchedPIDs b q = Some d"
    and "r = p \<and> d = length (chans b) \<or> r \<noteq> p \<and> watchedPIDs b r = Some d"
    by (simp_all split: if_splits)
  then show "q = r"
    using wf_tracker_open [OF wf, of q d] wf_tracker_open [OF wf, of r d]
      wf_tracker_inj [OF wf, of q d r]
    by auto
qed

lemma wf_NewWatcher:
  assumes wf: "wf_tracker b"
  shows "wf_tracker (snd (bsdTracker_NewWatcher res info b))"
  using NewWatcher_state [of res info b]
proof (elim disjE conjE exE)
  assume "snd (bsdTracker_NewWatcher res info b) = b"
  with wf show ?thesis by simp
next
  fix err
  assume "snd (bsdTracker_NewWatcher res info b) =
            b\<lparr>kevent_log := kevent_log b @ [(sint (PID info), Some err)]\<rparr>"
  with wf show ?thesis by (simp add: wf_tracker_def)
next
  assume "watchedPIDs b (sint (PID info)) = None"
    and "snd (bsdTracker_NewWatcher res info b) =
        b\<lparr>kevent_log := kevent_log b @ [(sint (PID info), None)],
          chans := chans b @ [False],
          watchedPIDs := (watchedPIDs b)(sint (PID info) \<mapsto> length (chans b))\<rparr>"
  with wf_tracker_register [OF wf] show ?thesis by simp
qed

lemma NewWatcher_is_closed:
  "is_closed d (snd (bsdTracker_NewWatcher res info b)) = is_closed d b"
  using NewWatcher_state [of res info b]
  by (auto simp add: is_closed_def nth_append less_Suc_eq)

lemma NewWatcher_keeps:
  "watchedPIDs b q = Some d \<Longrightarrow>
     watchedPIDs (snd (bsdTracker_NewWatcher res info b)) q = Some d"
  using NewWatcher_state [of res info b] by auto

lemma NewWatcher_adds:
  "watchedPIDs b q = None \<Longrightarrow>
   watchedPIDs (snd (bsdTracker_NewWatcher res info b)) q = Some d \<Longrightarrow> q = sint (PID info)"
  using NewWatcher_state [of res info b] by (auto split: if_splits)

lemma NewWatcher_log:
  "watchedPIDs b q = Some d \<Longrightarrow>
     filter (\<lambda>x. fst x = q) (kevent_log (snd (bsdTracker_NewWatcher res info b))) =
     filter (\<lambda>x. fst x = q) (kevent_log b)"
  using NewWatcher_state [of res info b] by auto

lemma NewWatcher_Inr:
  assumes "bsdTracker_NewWatcher res info b = (Inr w, b1)"
  shows "PID info \<noteq> 0 \<and> \<not> ctx_cancelled b \<and> \<not> closed w \<and> pid w = PID info \<and>
         watchedPIDs b1 (sint (PID info)) = Some (done_chan w) \<and>
         (case watchedPIDs b (sint (PID info)) of
            Some d \<Rightarrow> b1 = b \<and> done_chan w = d
          | None \<Rightarrow> res = None \<and> done_chan w = length (chans b) \<and>
              kevent_log b1 = kevent_log b @ [(sint (PID info), None)])"
  using assms
  by (cases res; cases "watchedPIDs b (sint (PID info))")
     (auto simp add: bsdTracker_NewWatcher_def addKeventForWatcher_def Let_def
        newBSDWatcher_def split: if_splits)

text \<open>A turn of the loop on a well-formed state.\<close>

lemma loop_turn_error:
  "snd (receiveKevents_iter cast (Inl err) b) = b"
  by (simp add: receiveKevents_iter_def)

lemma loop_turn_events:
  assumes "wf_tracker b"
  shows "fst (receiveKevents_iter cast (Inr ks) b) = Waiting \<and>
         wf_tracker (snd (receiveKevents_iter cast (Inr ks) b)) \<and>
         watchedPIDs (snd (receiveKevents_iter cast (Inr ks) b)) =
           (\<lambda>p. if p \<in> set (exit_pids cast ks) then None else watchedPIDs b p) \<and>
         (\<forall>d. is_closed d (snd (receiveKevents_iter cast (Inr ks) b)) \<longleftrightarrow>
                is_closed d b \<or> (\<exists>p\<in>set (exit_pids cast ks). watchedPIDs b p = Some d)) \<and>
         kevent_log (snd (receiveKevents_iter cast (Inr ks) b)) = kevent_log b"
proof -
  from handle_kevents_wf [OF assms, of cast ks]
  obtain b' where "handle_kevents cast ks b = (None, b')" and "wf_tracker b'"
    and "watchedPIDs b' =
           (\<lambda>p. if p \<in> set (exit_pids cast ks) then None else watchedPIDs b p)"
    and "\<forall>d. is_closed d b' \<longleftrightarrow>
           is_closed d b \<or> (\<exists>p\<in>set (exit_pids cast ks). watchedPIDs b p = Some d)"
    and "kevent_log b' = kevent_log b"
    by blast
  then show ?thesis
    by (simp add: receiveKevents_iter_def)
qed

lemma wf_tracker_step:
  assumes "wf_tracker b"
  shows "wf_tracker (tracker_step cast c b)"
proof (cases c)
  case (CallNewWatcher res info)
  with assms show ?thesis by (simp add: wf_NewWatcher)
next
  case CallTrackerClose
  with assms show ?thesis by (simp add: bsdTracker_Close_def wf_tracker_def)
next
  case (LoopTurn r)
  show ?thesis
  proof (cases r)
    case (Inl err)
    with LoopTurn assms show ?thesis by (simp add: loop_turn_error)
  next
    case (Inr ks)
    with LoopTurn loop_turn_events [OF assms, of cast ks] show ?thesis by simp
  qed
qed (use assms in simp_all)

lemma wf_run: "wf_tracker b \<Longrightarrow> wf_tracker (run cast cs b)"
  by (induction cs arbitrary: b) (simp_all add: wf_tracker_step)

lemma run_append: "run cast (cs @ cs') b = run cast cs' (run cast cs b)"
  by (induction cs arbitrary: b) simp_all

text \<open>A closed channel stays closed.\<close>

lemma step_is_closed:
  assumes "wf_tracker b" and "is_closed d b"
  shows "is_closed d (tracker_step cast c b)"
proof (cases c)
  case (CallNewWatcher res info)
  with assms show ?thesis by (simp add: NewWatcher_is_closed)
next
  case CallTrackerClose
  with assms show ?thesis by (simp add: bsdTracker_Close_def is_closed_def)
next
  case (LoopTurn r)
  show ?thesis
  proof (cases r)
    case (Inl err)
    with LoopTurn assms show ?thesis by (simp add: loop_turn_error)
  next
    case (Inr ks)
    with LoopTurn assms(2) loop_turn_events [OF assms(1), of cast ks] show ?thesis by simp
  qed
qed (use assms in simp_all)

text \<open>
  An entry stays as it is, unless the step is a turn of the loop with an exit event for
  its PID, which removes it and closes its channel.
\<close>

lemma step_entry:
  assumes "wf_tracker b" and "watchedPIDs b p = Some d"
  shows "(if \<exists>ks. c = LoopTurn (Inr ks) \<and> p \<in> set (exit_pids cast ks)
          then watchedPIDs (tracker_step cast c b) p = None \<and>
               is_closed d (tracker_step cast c b)
          else watchedPIDs (tracker_step cast c b) p = Some d \<and>
               filter (\<lambda>x. fst x = p) (kevent_log (tracker_step cast c b)) =
               filter (\<lambda>x. fst x = p) (kevent_log b))"
proof (cases c)
  case (CallNewWatcher res info)
  with assms show ?thesis by (simp add: NewWatcher_keeps NewWatcher_log)
next
  case CallTrackerClose
  with assms show ?thesis by (simp add: bsdTracker_Close_def)
next
  case (LoopTurn r)
  show ?thesis
  proof (cases r)
    case (Inl err)
    with LoopTurn assms show ?thesis by (simp add: loop_turn_error)
  next
    case (Inr ks)
    with LoopTurn assms loop_turn_events [OF assms(1), of cast ks] show ?thesis
      by auto
  qed
qed (use assms in simp_all)

text \<open>A closed channel stays closed through a run.\<close>

lemma run_is_closed:
  "wf_tracker b \<Longrightarrow> is_closed d b \<Longrightarrow> is_closed d (run cast cs b)"
  by (induction cs arbitrary: b) (simp_all add: step_is_closed wf_tracker_step)

text \<open>While no exit of its PID is reported, an entry and its registrations stay.\<close>

lemma run_entry_kept:
  assumes "wf_tracker b" and "watchedPIDs b p = Some d"
    and "\<forall>ks. LoopTurn (Inr ks) \<in> set cs \<longrightarrow> p \<notin> set (exit_pids cast ks)"
  shows "watchedPIDs (run cast cs b) p = Some d \<and>
         filter (\<lambda>x. fst x = p) (kevent_log (run cast cs b)) =
         filter (\<lambda>x. fst x = p) (kevent_log b)"
  using assms
proof (induction cs arbitrary: b)
  case Nil
  then show ?case by simp
next
  case (Cons c cs)
  have n: "\<not> (\<exists>ks. c = LoopTurn (Inr ks) \<and> p \<in> set (exit_pids cast ks))"
    using Cons.prems(3) by auto
  from step_entry [OF Cons.prems(1,2), of c cast] n
  have s: "watchedPIDs (tracker_step cast c b) p = Some d"
    and l: "filter (\<lambda>x. fst x = p) (kevent_log (tracker_step cast c b)) =
            filter (\<lambda>x. fst x = p) (kevent_log b)"
    by simp_all
  have r: "\<forall>ks. LoopTurn (Inr ks) \<in> set cs \<longrightarrow> p \<notin> set (exit_pids cast ks)"
    using Cons.prems(3) by simp
  from Cons.IH [OF wf_tracker_step [OF Cons.prems(1)] s r] l show ?case
    by simp
qed

text \<open>
  The channel of an entry is closed by the end of any run with an exit event for the
  entry's PID.
\<close>

lemma run_exit_closes:
  assumes "wf_tracker b" and "watchedPIDs b p = Some d \<or> is_closed d b"
  shows "(watchedPIDs (run cast cs b) p = Some d \<or> is_closed d (run cast cs b)) \<and>
         ((\<exists>ks. LoopTurn (Inr ks) \<in> set cs \<and> p \<in> set (exit_pids cast ks)) \<longrightarrow>
            is_closed d (run cast cs b))"
  using assms
proof (induction cs arbitrary: b)
  case Nil
  then show ?case by simp
next
  case (Cons c cs)
  let ?b = "tracker_step cast c b"
  have wf': "wf_tracker ?b"
    by (rule wf_tracker_step [OF Cons.prems(1)])
  have inv: "watchedPIDs ?b p = Some d \<or> is_closed d ?b"
    using Cons.prems(2)
  proof
    assume "watchedPIDs b p = Some d"
    from step_entry [OF Cons.prems(1) this, of c cast] show ?thesis
      by (auto split: if_splits)
  next
    assume "is_closed d b"
    from step_is_closed [OF Cons.prems(1) this] show ?thesis by simp
  qed
  have here: "is_closed d ?b" if "c = LoopTurn (Inr ks)" "p \<in> set (exit_pids cast ks)" for ks
    using Cons.prems(2)
  proof
    assume "watchedPIDs b p = Some d"
    from step_entry [OF Cons.prems(1) this, of c cast] that show ?thesis
      by auto
  next
    assume "is_closed d b"
    from step_is_closed [OF Cons.prems(1) this] show ?thesis by simp
  qed
  from Cons.IH [OF wf' inv]
  have ih1: "watchedPIDs (run cast cs ?b) p = Some d \<or> is_closed d (run cast cs ?b)"
    and ih2: "(\<exists>ks. LoopTurn (Inr ks) \<in> set cs \<and> p \<in> set (exit_pids cast ks)) \<longrightarrow>
                is_closed d (run cast cs ?b)"
    by simp_all
  have later: "is_closed d (run cast cs ?b)" if "is_closed d ?b"
    using that by (rule run_is_closed [OF wf'])
  show ?case
    using ih1 ih2 here later by auto
qed

text \<open>Entries are added by \<open>NewWatcher\<close> only, and channels closed by the loop only.\<close>

lemma step_adds:
  assumes "wf_tracker b" and "watchedPIDs b p = None"
    and "watchedPIDs (tracker_step cast c b) p = Some d"
  shows "\<exists>res info. c = CallNewWatcher res info \<and> sint (PID info) = p"
proof (cases c)
  case (CallNewWatcher res info)
  with assms NewWatcher_adds [of b p res info d] show ?thesis by simp
next
  case CallTrackerClose
  with assms show ?thesis by (simp add: bsdTracker_Close_def)
next
  case (LoopTurn r)
  show ?thesis
  proof (cases r)
    case (Inl err)
    with LoopTurn assms show ?thesis by (simp add: loop_turn_error)
  next
    case (Inr ks)
    with LoopTurn assms(2,3) loop_turn_events [OF assms(1), of cast ks] show ?thesis
      by (simp split: if_splits)
  qed
qed (use assms in simp_all)

lemma step_fires:
  assumes "wf_tracker b" and "\<not> is_closed d b" and "is_closed d (tracker_step cast c b)"
  shows "\<exists>ks p. c = LoopTurn (Inr ks) \<and> p \<in> set (exit_pids cast ks) \<and>
           watchedPIDs b p = Some d"
proof (cases c)
  case (CallNewWatcher res info)
  with assms show ?thesis by (simp add: NewWatcher_is_closed)
next
  case CallTrackerClose
  with assms show ?thesis by (simp add: bsdTracker_Close_def is_closed_def)
next
  case (LoopTurn r)
  show ?thesis
  proof (cases r)
    case (Inl err)
    with LoopTurn assms show ?thesis by (simp add: loop_turn_error)
  next
    case (Inr ks)
    with LoopTurn assms(2,3) loop_turn_events [OF assms(1), of cast ks] show ?thesis
      by auto
  qed
qed (use assms in simp_all)

text \<open>
  Claim C5. In every state a tracker reaches from \<open>newTracker\<close>, the map has one entry
  per PID at most (it is a map), every channel in it is open and belongs to one PID, and
  for every step from there, whichever call it is:
  \<^item> an entry appears for a PID that had none only by \<open>NewWatcher\<close> for that PID;
  \<^item> an entry changes only by being removed, with its channel closed, and only by a turn
    of the loop that received an exit event for its PID, so not by a watcher's
    \<open>Close\<close>;
  \<^item> a channel becomes closed only by a turn of the loop that received an exit event for
    the PID it is registered under;
  \<^item> a turn of the loop that receives an exit event for a PID with an entry does not
    panic, closes the entry's channel and removes the entry.
\<close>

theorem registry_entry_lifecycle:
  assumes new: "newTracker kq = Inr b0"
  shows "let b = run cast cs b0; b' = tracker_step cast c b in
     wf_tracker b \<and>
     (\<forall>p d. watchedPIDs b p = None \<and> watchedPIDs b' p = Some d \<longrightarrow>
        (\<exists>res info. c = CallNewWatcher res info \<and> sint (PID info) = p)) \<and>
     (\<forall>p d. watchedPIDs b p = Some d \<and> watchedPIDs b' p \<noteq> Some d \<longrightarrow>
        watchedPIDs b' p = None \<and> is_closed d b' \<and>
        (\<exists>ks k. c = LoopTurn (Inr ks) \<and> k \<in> set ks \<and> is_exit_kevent k \<and>
           cast (Ident k) = Some p)) \<and>
     (\<forall>d. is_closed d b' \<and> \<not> is_closed d b \<longrightarrow>
        (\<exists>ks k p. c = LoopTurn (Inr ks) \<and> k \<in> set ks \<and> is_exit_kevent k \<and>
           cast (Ident k) = Some p \<and> watchedPIDs b p = Some d)) \<and>
     (\<forall>ks k p d. c = LoopTurn (Inr ks) \<and> k \<in> set ks \<and> is_exit_kevent k \<and>
        cast (Ident k) = Some p \<and> watchedPIDs b p = Some d \<longrightarrow>
        fst (receiveKevents_iter cast (Inr ks) b) = Waiting \<and>
        is_closed d b' \<and> watchedPIDs b' p = None)"
proof -
  let ?b = "run cast cs b0"
  let ?b' = "tracker_step cast c ?b"
  have wf: "wf_tracker ?b"
    by (rule wf_run [OF wf_newTracker [OF new]])
  have created: "\<forall>p d. watchedPIDs ?b p = None \<and> watchedPIDs ?b' p = Some d \<longrightarrow>
        (\<exists>res info. c = CallNewWatcher res info \<and> sint (PID info) = p)"
  proof (intro allI impI, elim conjE)
    fix p d
    assume "watchedPIDs ?b p = None" and "watchedPIDs ?b' p = Some d"
    then show "\<exists>res info. c = CallNewWatcher res info \<and> sint (PID info) = p"
      by (rule step_adds [OF wf])
  qed
  have removed: "\<forall>p d. watchedPIDs ?b p = Some d \<and> watchedPIDs ?b' p \<noteq> Some d \<longrightarrow>
        watchedPIDs ?b' p = None \<and> is_closed d ?b' \<and>
        (\<exists>ks k. c = LoopTurn (Inr ks) \<and> k \<in> set ks \<and> is_exit_kevent k \<and>
           cast (Ident k) = Some p)"
  proof (intro allI impI, elim conjE)
    fix p d
    assume e: "watchedPIDs ?b p = Some d" and n: "watchedPIDs ?b' p \<noteq> Some d"
    have t: "\<exists>ks. c = LoopTurn (Inr ks) \<and> p \<in> set (exit_pids cast ks)"
    proof (rule ccontr)
      assume "\<not> ?thesis"
      with step_entry [OF wf e, of c cast] have "watchedPIDs ?b' p = Some d"
        by simp
      with n show False by simp
    qed
    then obtain ks where c: "c = LoopTurn (Inr ks)" and p: "p \<in> set (exit_pids cast ks)"
      by blast
    from p obtain k where "k \<in> set ks" "is_exit_kevent k" "cast (Ident k) = Some p"
      unfolding set_exit_pids by blast
    moreover from step_entry [OF wf e, of c cast] t
    have "watchedPIDs ?b' p = None \<and> is_closed d ?b'"
      by simp
    ultimately show "watchedPIDs ?b' p = None \<and> is_closed d ?b' \<and>
        (\<exists>ks k. c = LoopTurn (Inr ks) \<and> k \<in> set ks \<and> is_exit_kevent k \<and>
           cast (Ident k) = Some p)"
      using c by blast
  qed
  have fired: "\<forall>d. is_closed d ?b' \<and> \<not> is_closed d ?b \<longrightarrow>
        (\<exists>ks k p. c = LoopTurn (Inr ks) \<and> k \<in> set ks \<and> is_exit_kevent k \<and>
           cast (Ident k) = Some p \<and> watchedPIDs ?b p = Some d)"
  proof (intro allI impI, elim conjE)
    fix d
    assume "is_closed d ?b'" and "\<not> is_closed d ?b"
    from step_fires [OF wf this(2) this(1)]
    obtain ks p where c: "c = LoopTurn (Inr ks)" and p: "p \<in> set (exit_pids cast ks)"
      and e: "watchedPIDs ?b p = Some d"
      by blast
    from p obtain k where "k \<in> set ks" "is_exit_kevent k" "cast (Ident k) = Some p"
      unfolding set_exit_pids by blast
    with c e show "\<exists>ks k p. c = LoopTurn (Inr ks) \<and> k \<in> set ks \<and> is_exit_kevent k \<and>
           cast (Ident k) = Some p \<and> watchedPIDs ?b p = Some d"
      by blast
  qed
  have reaped: "\<forall>ks k p d. c = LoopTurn (Inr ks) \<and> k \<in> set ks \<and> is_exit_kevent k \<and>
        cast (Ident k) = Some p \<and> watchedPIDs ?b p = Some d \<longrightarrow>
        fst (receiveKevents_iter cast (Inr ks) ?b) = Waiting \<and>
        is_closed d ?b' \<and> watchedPIDs ?b' p = None"
  proof (intro allI impI, elim conjE)
    fix ks k p d
    assume c: "c = LoopTurn (Inr ks)" and k: "k \<in> set ks" "is_exit_kevent k"
      "cast (Ident k) = Some p" and e: "watchedPIDs ?b p = Some d"
    have "p \<in> set (exit_pids cast ks)"
      unfolding set_exit_pids using k by blast
    with c have t: "\<exists>ks. c = LoopTurn (Inr ks) \<and> p \<in> set (exit_pids cast ks)"
      by blast
    from step_entry [OF wf e, of c cast] t
    have "watchedPIDs ?b' p = None \<and> is_closed d ?b'"
      by simp
    moreover from loop_turn_events [OF wf, of cast ks]
    have "fst (receiveKevents_iter cast (Inr ks) ?b) = Waiting"
      by blast
    ultimately show "fst (receiveKevents_iter cast (Inr ks) ?b) = Waiting \<and>
        is_closed d ?b' \<and> watchedPIDs ?b' p = None"
      by blast
  qed
  show ?thesis
    unfolding Let_def by (intro conjI wf created removed fired reaped)
qed

theorem registry_entry_lifecycle_witness:
  "newTracker (Inr 3) =
     Inr \<lparr>ctx_cancelled = False, kqfd = 3, kqfd_closed = False, watchedPIDs = Map.empty,
          chans = [], kevent_log = [], warnings = []\<rparr> \<and>
   watchedPIDs
     (run CheckedCast_int [CallNewWatcher None \<lparr>PID = 7\<rparr>]
        \<lparr>ctx_cancelled = False, kqfd = 3, kqfd_closed = False, watchedPIDs = Map.empty,
         chans = [], kevent_log = [], warnings = []\<rparr>) 7 = Some 0 \<and>
   is_exit_kevent \<lparr>Ident = 7, Filter = - 5, Fflags = 0x80000000\<rparr> \<and>
   CheckedCast_int (Ident \<lparr>Ident = 7, Filter = - 5, Fflags = 0x80000000\<rparr>) = Some 7 \<and>
   is_closed 0
     (tracker_step CheckedCast_int
        (LoopTurn (Inr [\<lparr>Ident = 7, Filter = - 5, Fflags = 0x80000000\<rparr>]))
        (run CheckedCast_int [CallNewWatcher None \<lparr>PID = 7\<rparr>]
           \<lparr>ctx_cancelled = False, kqfd = 3, kqfd_closed = False, watchedPIDs = Map.empty,
            chans = [], kevent_log = [], warnings = []\<rparr>)) \<and>
   watchedPIDs
     (tracker_step CheckedCast_int
        (LoopTurn (Inr [\<lparr>Ident = 7, Filter = - 5, Fflags = 0x80000000\<rparr>]))
        (run CheckedCast_int [CallNewWatcher None \<lparr>PID = 7\<rparr>]
           \<lparr>ctx_cancelled = False, kqfd = 3, kqfd_closed = False, watchedPIDs = Map.empty,
            chans = [], kevent_log = [], warnings = []\<rparr>)) 7 = None"
proof -
  let ?b0 = "\<lparr>ctx_cancelled = False, kqfd = 3, kqfd_closed = False, watchedPIDs = Map.empty,
              chans = [], kevent_log = [], warnings = []\<rparr>"
  let ?k = "\<lparr>Ident = 7, Filter = - 5, Fflags = 0x80000000\<rparr>"
  have h1: "newTracker (Inr 3) = Inr ?b0"
    by (simp add: newTracker_def)
  have e: "watchedPIDs (run CheckedCast_int [CallNewWatcher None \<lparr>PID = 7\<rparr>] ?b0) 7 = Some 0"
    by (simp add: bsdTracker_NewWatcher_def addKeventForWatcher_def Let_def)
  have k: "is_exit_kevent ?k" "CheckedCast_int (Ident ?k) = Some 7"
    by (simp_all add: is_exit_kevent_def EVFILT_PROC_def NOTE_EXIT_def CheckedCast_int_def)
  from registry_entry_lifecycle [OF h1, of CheckedCast_int "[CallNewWatcher None \<lparr>PID = 7\<rparr>]"
      "LoopTurn (Inr [?k])"]
  have "\<forall>ks k p d. LoopTurn (Inr [?k]) = LoopTurn (Inr ks) \<and> k \<in> set ks \<and>
          is_exit_kevent k \<and> CheckedCast_int (Ident k) = Some p \<and>
          watchedPIDs (run CheckedCast_int [CallNewWatcher None \<lparr>PID = 7\<rparr>] ?b0) p = Some d \<longrightarrow>
          is_closed d (tracker_step CheckedCast_int (LoopTurn (Inr [?k]))
             (run CheckedCast_int [CallNewWatcher None \<lparr>PID = 7\<rparr>] ?b0)) \<and>
          watchedPIDs (tracker_step CheckedCast_int (LoopTurn (Inr [?k]))
             (run CheckedCast_int [CallNewWatcher None \<lparr>PID = 7\<rparr>] ?b0)) p = None"
    unfolding Let_def by blast
  then have "is_closed 0 (tracker_step CheckedCast_int (LoopTurn (Inr [?k]))
             (run CheckedCast_int [CallNewWatcher None \<lparr>PID = 7\<rparr>] ?b0)) \<and>
          watchedPIDs (tracker_step CheckedCast_int (LoopTurn (Inr [?k]))
             (run CheckedCast_int [CallNewWatcher None \<lparr>PID = 7\<rparr>] ?b0)) 7 = None"
    using e k by (metis list.set_intros(1))
  with h1 e k show ?thesis
    by blast
qed

text \<open>
  Claim C4. A call of \<open>NewWatcher\<close> that finds an entry for the PID leaves the state as
  it is, so registers nothing with the kernel, and on an open tracker returns a watcher
  on the entry's channel. So, on a tracker made by \<open>newTracker\<close>: a call for a PID that
  succeeds has registered the PID once if it had no entry, and not at all if it had one;
  and after any run from there in which the loop receives no exit event for that PID
  (calls of \<open>NewWatcher\<close> for the same PID among them), a further call on the still
  open tracker returns a watcher on the same channel and changes nothing, and the run has
  submitted no registration for that PID.
\<close>

theorem NewWatcher_dedup:
  assumes new: "newTracker kq = Inr b0"
    and first: "bsdTracker_NewWatcher res info (run cast cs0 b0) = (Inr w, b1)"
    and running: "\<forall>ks k. LoopTurn (Inr ks) \<in> set cs \<and> k \<in> set ks \<and> is_exit_kevent k \<longrightarrow>
                    cast (Ident k) \<noteq> Some (sint (PID info))"
    and opn: "\<not> ctx_cancelled (run cast cs b1)"
  shows "(\<forall>b d. watchedPIDs b (sint (PID info)) = Some d \<longrightarrow>
            snd (bsdTracker_NewWatcher res' info b) = b \<and>
            (\<not> ctx_cancelled b \<longrightarrow>
               fst (bsdTracker_NewWatcher res' info b) = Inr (newBSDWatcher info d))) \<and>
         (case watchedPIDs (run cast cs0 b0) (sint (PID info)) of
            Some d \<Rightarrow> b1 = run cast cs0 b0 \<and> done_chan w = d
          | None \<Rightarrow> kevent_log b1 =
                     kevent_log (run cast cs0 b0) @ [(sint (PID info), None)]) \<and>
         bsdTracker_NewWatcher res' info (run cast cs b1) =
           (Inr (newBSDWatcher info (done_chan w)), run cast cs b1) \<and>
         filter (\<lambda>x. fst x = sint (PID info)) (kevent_log (run cast cs b1)) =
           filter (\<lambda>x. fst x = sint (PID info)) (kevent_log b1)"
proof -
  let ?p = "sint (PID info)"
  have wf0: "wf_tracker (run cast cs0 b0)"
    by (rule wf_run [OF wf_newTracker [OF new]])
  have wf1: "wf_tracker b1"
    using wf_NewWatcher [OF wf0, of res info] first by simp
  from NewWatcher_Inr [OF first]
  have nz: "PID info \<noteq> 0" and e1: "watchedPIDs b1 ?p = Some (done_chan w)"
    and c: "case watchedPIDs (run cast cs0 b0) ?p of
              Some d \<Rightarrow> b1 = run cast cs0 b0 \<and> done_chan w = d
            | None \<Rightarrow> res = None \<and> done_chan w = length (chans (run cast cs0 b0)) \<and>
                kevent_log b1 = kevent_log (run cast cs0 b0) @ [(?p, None)]"
    by simp_all
  have r: "\<forall>ks. LoopTurn (Inr ks) \<in> set cs \<longrightarrow> ?p \<notin> set (exit_pids cast ks)"
    using running by (auto simp add: set_exit_pids)
  from run_entry_kept [OF wf1 e1 r]
  have kept: "watchedPIDs (run cast cs b1) ?p = Some (done_chan w)"
    and log: "filter (\<lambda>x. fst x = ?p) (kevent_log (run cast cs b1)) =
              filter (\<lambda>x. fst x = ?p) (kevent_log b1)"
    by simp_all
  have one: "\<forall>b d. watchedPIDs b ?p = Some d \<longrightarrow>
            snd (bsdTracker_NewWatcher res' info b) = b \<and>
            (\<not> ctx_cancelled b \<longrightarrow>
               fst (bsdTracker_NewWatcher res' info b) = Inr (newBSDWatcher info d))"
    using nz by (simp add: bsdTracker_NewWatcher_def)
  have two: "case watchedPIDs (run cast cs0 b0) ?p of
            Some d \<Rightarrow> b1 = run cast cs0 b0 \<and> done_chan w = d
          | None \<Rightarrow> kevent_log b1 = kevent_log (run cast cs0 b0) @ [(?p, None)]"
    using c by (simp split: option.splits)
  have three: "bsdTracker_NewWatcher res' info (run cast cs b1) =
           (Inr (newBSDWatcher info (done_chan w)), run cast cs b1)"
    by (rule NewWatcher_existing [OF nz opn kept])
  from one two three log show ?thesis
    by blast
qed

theorem NewWatcher_dedup_witness:
  "newTracker (Inr 3) =
     Inr \<lparr>ctx_cancelled = False, kqfd = 3, kqfd_closed = False, watchedPIDs = Map.empty,
          chans = [], kevent_log = [], warnings = []\<rparr> \<and>
   bsdTracker_NewWatcher None \<lparr>PID = 7\<rparr>
     \<lparr>ctx_cancelled = False, kqfd = 3, kqfd_closed = False, watchedPIDs = Map.empty,
      chans = [], kevent_log = [], warnings = []\<rparr>
   = (Inr \<lparr>closed = False, done_chan = 0, pid = 7\<rparr>,
      \<lparr>ctx_cancelled = False, kqfd = 3, kqfd_closed = False, watchedPIDs = [7 \<mapsto> 0],
       chans = [False], kevent_log = [(7, None)], warnings = []\<rparr>) \<and>
   fst (bsdTracker_NewWatcher (Some ESRCH) \<lparr>PID = 7\<rparr>
     (run CheckedCast_int
        [CallNewWatcher None \<lparr>PID = 9\<rparr>,
         LoopTurn (Inr [\<lparr>Ident = 9, Filter = - 5, Fflags = 0x80000000\<rparr>]),
         CallNewWatcher None \<lparr>PID = 7\<rparr>]
        \<lparr>ctx_cancelled = False, kqfd = 3, kqfd_closed = False, watchedPIDs = [7 \<mapsto> 0],
         chans = [False], kevent_log = [(7, None)], warnings = []\<rparr>))
   = Inr \<lparr>closed = False, done_chan = 0, pid = 7\<rparr> \<and>
   kevent_log
     (run CheckedCast_int
        [CallNewWatcher None \<lparr>PID = 9\<rparr>,
         LoopTurn (Inr [\<lparr>Ident = 9, Filter = - 5, Fflags = 0x80000000\<rparr>]),
         CallNewWatcher None \<lparr>PID = 7\<rparr>]
        \<lparr>ctx_cancelled = False, kqfd = 3, kqfd_closed = False, watchedPIDs = [7 \<mapsto> 0],
         chans = [False], kevent_log = [(7, None)], warnings = []\<rparr>)
   = [(7, None), (9, None)]"
proof -
  let ?b0 = "\<lparr>ctx_cancelled = False, kqfd = 3, kqfd_closed = False, watchedPIDs = Map.empty,
              chans = [], kevent_log = [], warnings = []\<rparr>"
  let ?b1 = "\<lparr>ctx_cancelled = False, kqfd = 3, kqfd_closed = False, watchedPIDs = [7 \<mapsto> 0],
              chans = [False], kevent_log = [(7, None)], warnings = []\<rparr>"
  let ?w = "\<lparr>closed = False, done_chan = 0, pid = 7\<rparr>"
  let ?cs = "[CallNewWatcher None \<lparr>PID = 9\<rparr>,
              LoopTurn (Inr [\<lparr>Ident = 9, Filter = - 5, Fflags = 0x80000000\<rparr>]),
              CallNewWatcher None \<lparr>PID = 7\<rparr>]"
  have ev: "is_exit_kevent \<lparr>Ident = 9, Filter = - 5, Fflags = 0x80000000\<rparr>"
    by (simp add: is_exit_kevent_def EVFILT_PROC_def NOTE_EXIT_def)
  have r: "run CheckedCast_int ?cs ?b1 =
             \<lparr>ctx_cancelled = False, kqfd = 3, kqfd_closed = False,
              watchedPIDs = [7 \<mapsto> 0], chans = [False, True],
              kevent_log = [(7, None), (9, None)], warnings = []\<rparr>"
    by (simp add: ev bsdTracker_NewWatcher_def addKeventForWatcher_def Let_def
          receiveKevents_iter_def handle_kevent_def CheckedCast_int_def close_chan_def
          fun_upd_twist)
  have h1: "newTracker (Inr 3) = Inr ?b0"
    by (simp add: newTracker_def)
  have h2: "bsdTracker_NewWatcher None \<lparr>PID = 7\<rparr> (run CheckedCast_int [] ?b0) = (Inr ?w, ?b1)"
    by (simp add: bsdTracker_NewWatcher_def addKeventForWatcher_def newBSDWatcher_def Let_def)
  have h3: "\<forall>ks k. LoopTurn (Inr ks) \<in> set ?cs \<and> k \<in> set ks \<and> is_exit_kevent k \<longrightarrow>
              CheckedCast_int (Ident k) \<noteq> Some (sint (PID \<lparr>PID = 7\<rparr>))"
    by (auto simp add: CheckedCast_int_def)
  have h4: "\<not> ctx_cancelled (run CheckedCast_int ?cs ?b1)"
    unfolding r by simp
  from NewWatcher_dedup [OF h1 h2 h3 h4, of "Some ESRCH", unfolded r] h1 h2 show ?thesis
    unfolding r by (simp add: newBSDWatcher_def)
qed

subsection \<open>Exit of the watched process\<close>

text \<open>
  Claim C7, as the code has it. The tracker learns of an exit from the exit event that the
  loop receives. When \<open>NewWatcher\<close> has returned a watcher, and the loop receives an exit
  event for the watcher's PID at some point after that and before \<open>IsAlive\<close> reads the
  exit signal, be it before the call of \<open>IsAlive\<close> (\<open>cs1\<close>) or during its sleep
  (\<open>cs2\<close>), then \<open>IsAlive\<close> on that watcher, which has not been closed, returns
  \<open>CallerExitedError\<close>.
\<close>

theorem IsAlive_after_exit_event:
  assumes new: "newTracker kq = Inr b0"
    and watch: "bsdTracker_NewWatcher res info (run cast cs0 b0) = (Inr w, b1)"
    and turn: "LoopTurn (Inr ks) \<in> set (cs1 @ cs2)"
    and ev: "k \<in> set ks" "is_exit_kevent k" "cast (Ident k) = Some (sint (PID info))"
  shows "bsdWatcher_IsAlive (run cast cs2) w (run cast cs1 b1) =
           (Some CallerExitedError,
            [Sleep safetyDelay, Warn ''Caller exit detected via kevent notification''])"
proof -
  let ?p = "sint (PID info)"
  have wf0: "wf_tracker (run cast cs0 b0)"
    by (rule wf_run [OF wf_newTracker [OF new]])
  have wf1: "wf_tracker b1"
    using wf_NewWatcher [OF wf0, of res info] watch by simp
  from NewWatcher_Inr [OF watch]
  have o: "\<not> closed w" and e1: "watchedPIDs b1 ?p = Some (done_chan w)"
    by simp_all
  have "?p \<in> set (exit_pids cast ks)"
    using ev by (auto simp add: set_exit_pids)
  with turn have "\<exists>ks. LoopTurn (Inr ks) \<in> set (cs1 @ cs2) \<and> ?p \<in> set (exit_pids cast ks)"
    by blast
  with run_exit_closes [OF wf1, of ?p "done_chan w" cast "cs1 @ cs2"] e1
  have "is_closed (done_chan w) (run cast (cs1 @ cs2) b1)"
    by blast
  then have "is_closed (done_chan w) (run cast cs2 (run cast cs1 b1))"
    by (simp add: run_append)
  with o show ?thesis
    by (simp add: bsdWatcher_IsAlive_def)
qed

theorem IsAlive_after_exit_event_witness:
  "newTracker (Inr 3) =
     Inr \<lparr>ctx_cancelled = False, kqfd = 3, kqfd_closed = False, watchedPIDs = Map.empty,
          chans = [], kevent_log = [], warnings = []\<rparr> \<and>
   bsdTracker_NewWatcher None \<lparr>PID = 7\<rparr>
     \<lparr>ctx_cancelled = False, kqfd = 3, kqfd_closed = False, watchedPIDs = Map.empty,
      chans = [], kevent_log = [], warnings = []\<rparr>
   = (Inr \<lparr>closed = False, done_chan = 0, pid = 7\<rparr>,
      \<lparr>ctx_cancelled = False, kqfd = 3, kqfd_closed = False, watchedPIDs = [7 \<mapsto> 0],
       chans = [False], kevent_log = [(7, None)], warnings = []\<rparr>) \<and>
   bsdWatcher_IsAlive
     (run CheckedCast_int
        [LoopTurn (Inr [\<lparr>Ident = 7, Filter = - 5, Fflags = 0x80000000\<rparr>])])
     \<lparr>closed = False, done_chan = 0, pid = 7\<rparr>
     \<lparr>ctx_cancelled = False, kqfd = 3, kqfd_closed = False, watchedPIDs = [7 \<mapsto> 0],
      chans = [False], kevent_log = [(7, None)], warnings = []\<rparr>
   = (Some CallerExitedError,
      [Sleep safetyDelay, Warn ''Caller exit detected via kevent notification''])"
proof -
  let ?b0 = "\<lparr>ctx_cancelled = False, kqfd = 3, kqfd_closed = False, watchedPIDs = Map.empty,
              chans = [], kevent_log = [], warnings = []\<rparr>"
  let ?b1 = "\<lparr>ctx_cancelled = False, kqfd = 3, kqfd_closed = False, watchedPIDs = [7 \<mapsto> 0],
              chans = [False], kevent_log = [(7, None)], warnings = []\<rparr>"
  let ?w = "\<lparr>closed = False, done_chan = 0, pid = 7\<rparr>"
  let ?k = "\<lparr>Ident = 7, Filter = - 5, Fflags = 0x80000000\<rparr>"
  have h1: "newTracker (Inr 3) = Inr ?b0"
    by (simp add: newTracker_def)
  have h2: "bsdTracker_NewWatcher None \<lparr>PID = 7\<rparr> (run CheckedCast_int [] ?b0) = (Inr ?w, ?b1)"
    by (simp add: bsdTracker_NewWatcher_def addKeventForWatcher_def newBSDWatcher_def Let_def)
  have h3: "LoopTurn (Inr [?k]) \<in> set ([] @ [LoopTurn (Inr [?k])])"
    by simp
  have h4: "?k \<in> set [?k]"
    by simp
  have h5: "is_exit_kevent ?k"
    by (simp add: is_exit_kevent_def EVFILT_PROC_def NOTE_EXIT_def)
  have h6: "CheckedCast_int (Ident ?k) = Some (sint (PID \<lparr>PID = 7\<rparr>))"
    by (simp add: CheckedCast_int_def)
  from IsAlive_after_exit_event [OF h1 h2 h3 h4 h5 h6] h1 h2 show ?thesis
    by simp
qed

text \<open>
  Without those two conditions the answer is another one. After \<open>NewWatcher\<close> for PID 7
  and the loop's handling of the exit event of 7, a watcher that has been closed answers
  \<open>NotWatchedError\<close>. And as long as the exit event has not reached the loop (no turn of
  the loop during the sleep), the open watcher answers nil, whatever has become of the
  process.
\<close>

theorem IsAlive_exit_counterexample:
  "bsdTracker_NewWatcher None \<lparr>PID = 7\<rparr>
     \<lparr>ctx_cancelled = False, kqfd = 3, kqfd_closed = False, watchedPIDs = Map.empty,
      chans = [], kevent_log = [], warnings = []\<rparr>
   = (Inr \<lparr>closed = False, done_chan = 0, pid = 7\<rparr>,
      \<lparr>ctx_cancelled = False, kqfd = 3, kqfd_closed = False, watchedPIDs = [7 \<mapsto> 0],
       chans = [False], kevent_log = [(7, None)], warnings = []\<rparr>) \<and>
   receiveKevents_iter CheckedCast_int
     (Inr [\<lparr>Ident = 7, Filter = - 5, Fflags = 0x80000000\<rparr>])
     \<lparr>ctx_cancelled = False, kqfd = 3, kqfd_closed = False, watchedPIDs = [7 \<mapsto> 0],
      chans = [False], kevent_log = [(7, None)], warnings = []\<rparr>
   = (Waiting,
      \<lparr>ctx_cancelled = False, kqfd = 3, kqfd_closed = False, watchedPIDs = Map.empty,
       chans = [True], kevent_log = [(7, None)], warnings = []\<rparr>) \<and>
   bsdWatcher_IsAlive (\<lambda>b. b)
     (bsdWatcher_Close \<lparr>closed = False, done_chan = 0, pid = 7\<rparr>)
     \<lparr>ctx_cancelled = False, kqfd = 3, kqfd_closed = False, watchedPIDs = Map.empty,
      chans = [True], kevent_log = [(7, None)], warnings = []\<rparr>
   = (Some NotWatchedError, [Warn ''Caller is no longer being watched'']) \<and>
   bsdWatcher_IsAlive (\<lambda>b. b)
     \<lparr>closed = False, done_chan = 0, pid = 7\<rparr>
     \<lparr>ctx_cancelled = False, kqfd = 3, kqfd_closed = False, watchedPIDs = [7 \<mapsto> 0],
      chans = [False], kevent_log = [(7, None)], warnings = []\<rparr>
   = (None, [Sleep safetyDelay])"
  by (simp add: bsdTracker_NewWatcher_def addKeventForWatcher_def newBSDWatcher_def Let_def
        receiveKevents_iter_def handle_kevent_def is_exit_kevent_def EVFILT_PROC_def
        NOTE_EXIT_def CheckedCast_int_def close_chan_def bsdWatcher_IsAlive_def
        bsdWatcher_Close_def is_closed_def)

end
